theory Spec2Isabelle
  imports Complex_Main "HOL-Library.Sublist"
begin

section \<open>Data model (types.ts)\<close>

text \<open>
  The optional fields of the source (\<^verbatim>\<open>lapses?\<close>, \<^verbatim>\<open>disabled?\<close>, \<^verbatim>\<open>srsData?\<close>) are
  options: \<open>None\<close> is JavaScript's \<^verbatim>\<open>undefined\<close>. The counters \<open>repetitions\<close> and
  \<open>lapses\<close> start at 0 and are only ever incremented or reset to 0, so they are natural
  numbers; the other numbers are reals. \<open>lastReview\<close> is not declared in the interface but
  is written by \<^verbatim>\<open>handleUpdateCardProgress\<close>, so the record carries it.
  Field names are prefixed, since the interfaces share the names \<^verbatim>\<open>id\<close> and
  \<^verbatim>\<open>blockId\<close>.
\<close>

record srsData =
  nextReview :: real
  interval :: real
  easeFactor :: real
  repetitions :: nat
  lapses :: "nat option"
  disabled :: "bool option"
  lastReview :: "nat option"

record block =
  b_id :: string
  b_content :: string
  b_level :: nat
  b_srsData :: "srsData option"

record document =
  d_id :: string
  d_folderId :: "string option"
  d_title :: string
  d_blocks :: "block list"
  d_lastModified :: nat

datatype cardType = Forward | Bidirectional | Cloze

datatype status = New | Learning | Review | Mastered

record flashcard =
  c_id :: string
  c_front :: string
  c_back :: string
  c_blockId :: string
  c_docId :: string
  c_cardType :: cardType
  c_status :: status
  c_nextReview :: real
  c_interval :: real
  c_easeFactor :: real
  c_repetitions :: nat
  c_lapses :: "nat option"
  c_disabled :: "bool option"

text \<open>\<^verbatim>\<open>StudyRating | OrderRating\<close>: the two enums of the source as one datatype.\<close>

datatype rating = AGAIN | HARD | GOOD | EASY | TWO_SEC | FIFTEEN_MIN | THIRTY_MIN | ONE_HOUR

text \<open>The row type of the card table (CardTable.tsx).\<close>

record tableRow =
  r_id :: string
  r_blockId :: string
  r_ancestors :: "string list"
  r_front :: string
  r_back :: string
  r_type :: cardType
  r_lapses :: nat
  r_disabled :: bool
  r_repetitions :: nat

section \<open>The string primitives the source calls\<close>

text \<open>
  A \<open>string\<close> is a list of 8-bit characters: the model covers the code units below 256.
  \<^verbatim>\<open>String.prototype.trim\<close> strips the white space and line terminators; in this range
  they are TAB, LF, VT, FF, CR, SPACE and NBSP.
\<close>

definition is_space :: "char \<Rightarrow> bool" where
  "is_space c = (c \<in> {CHR 0x09, CHR 0x0A, CHR 0x0B, CHR 0x0C, CHR 0x0D, CHR 0x20, CHR 0xA0})"

definition trim :: "string \<Rightarrow> string" where
  "trim s = rev (dropWhile is_space (rev (dropWhile is_space s)))"

text \<open>\<^verbatim>\<open>s.includes(sep)\<close>: \<open>sep\<close> occurs in \<open>s\<close> as a contiguous substring.\<close>

fun includes_str :: "string \<Rightarrow> string \<Rightarrow> bool" where
  "includes_str [] sep = (sep = [])"
| "includes_str (c # cs) sep = (prefix sep (c # cs) \<or> includes_str cs sep)"

text \<open>
  \<^verbatim>\<open>s.split(sep)\<close> for a non-empty separator: the pieces between the successive
  non-overlapping occurrences of \<open>sep\<close>, found from left to right. A string without
  the separator is returned as the only piece.
\<close>

function split_from :: "string \<Rightarrow> string \<Rightarrow> string list" where
  "split_from sep [] = [[]]"
| "split_from sep (c # cs) =
     (if sep \<noteq> [] \<and> prefix sep (c # cs)
      then [] # split_from sep (drop (length sep) (c # cs))
      else (case split_from sep cs of
              [] \<Rightarrow> [[c]]
            | p # ps \<Rightarrow> (c # p) # ps))"
  by pat_completeness auto
termination
  by (relation "measure (\<lambda>(sep, s). length s)") (auto simp: neq_Nil_conv)

definition split_str :: "string \<Rightarrow> string \<Rightarrow> string list" where
  "split_str s sep = (if sep = [] then map (\<lambda>c. [c]) s else split_from sep s)"

text \<open>
  The regular expression \<^verbatim>\<open>/\{[^}]+\}/\<close>: an opening brace, one or more characters
  other than a closing brace, a closing brace. The greedy run of non-brace characters
  after the opening brace has to be non-empty and has to be followed by a closing brace.
\<close>

definition cloze_at :: "string \<Rightarrow> bool" where
  "cloze_at rest =
     (takeWhile (\<lambda>c. c \<noteq> CHR ''}'') rest \<noteq> [] \<and> dropWhile (\<lambda>c. c \<noteq> CHR ''}'') rest \<noteq> [])"

fun cloze_test :: "string \<Rightarrow> bool" where
  "cloze_test [] = False"
| "cloze_test (c # cs) = ((c = CHR ''{'' \<and> cloze_at cs) \<or> cloze_test cs)"

section \<open>Card table derivation (CardTable.tsx, tableData)\<close>

text \<open>
  The backward loop \<^verbatim>\<open>for (let i = index - 1; i >= 0; i--)\<close>. The first argument is
  \<open>i + 1\<close>, so 0 means that the loop is over; \<open>currentLevel\<close> and \<open>ancestors\<close> are the two
  variables the loop updates, and \<^verbatim>\<open>unshift\<close> is \<open>#\<close>.
\<close>

fun ancestors_loop :: "nat \<Rightarrow> block list \<Rightarrow> nat \<Rightarrow> string list \<Rightarrow> string list" where
  "ancestors_loop 0 blocks currentLevel ancestors = ancestors"
| "ancestors_loop (Suc i) blocks currentLevel ancestors =
     (if b_level (blocks ! i) < currentLevel
      then (if b_level (blocks ! i) = 0
            then b_content (blocks ! i) # ancestors
            else ancestors_loop i blocks (b_level (blocks ! i)) (b_content (blocks ! i) # ancestors))
      else ancestors_loop i blocks currentLevel ancestors)"

definition ancestorsOf :: "block list \<Rightarrow> nat \<Rightarrow> string list" where
  "ancestorsOf blocks index = ancestors_loop index blocks (b_level (blocks ! index)) []"

text \<open>\<^verbatim>\<open>block.srsData?.lapses || 0\<close> and its two neighbours.\<close>

definition row_lapses :: "block \<Rightarrow> nat" where
  "row_lapses b = (case b_srsData b of None \<Rightarrow> 0 | Some s \<Rightarrow> (case lapses s of None \<Rightarrow> 0 | Some n \<Rightarrow> n))"

definition row_disabled :: "block \<Rightarrow> bool" where
  "row_disabled b = (case b_srsData b of None \<Rightarrow> False | Some s \<Rightarrow> (case disabled s of None \<Rightarrow> False | Some d \<Rightarrow> d))"

definition row_repetitions :: "block \<Rightarrow> nat" where
  "row_repetitions b = (case b_srsData b of None \<Rightarrow> 0 | Some s \<Rightarrow> repetitions s)"

definition mk_row :: "block \<Rightarrow> string list \<Rightarrow> string \<Rightarrow> string \<Rightarrow> string \<Rightarrow> cardType \<Rightarrow> tableRow" where
  "mk_row b ancestors sfx front back ty =
     \<lparr>r_id = b_id b @ sfx, r_blockId = b_id b, r_ancestors = ancestors,
      r_front = front, r_back = back, r_type = ty,
      r_lapses = row_lapses b, r_disabled = row_disabled b, r_repetitions = row_repetitions b\<rparr>"

text \<open>
  The body of \<^verbatim>\<open>blocks.forEach((block, index) => ...)\<close>. The destructuring
  \<^verbatim>\<open>const [front, back] = ...\<close> reads the first two pieces; a missing piece is
  \<^verbatim>\<open>undefined\<close>, which like the empty string fails the test \<^verbatim>\<open>front && back\<close>.
\<close>

definition rows_of_block :: "block list \<Rightarrow> nat \<Rightarrow> tableRow list" where
  "rows_of_block blocks index =
     (let block = blocks ! index;
          ancestors = ancestorsOf blocks index;
          content = b_content block
      in if includes_str content ''::'' then
           (case map trim (split_str content ''::'') of
              front # back # _ \<Rightarrow>
                if front \<noteq> [] \<and> back \<noteq> []
                then [mk_row block ancestors ''-fwd'' front back Bidirectional,
                      mk_row block ancestors ''-bwd'' back front Bidirectional]
                else []
            | _ \<Rightarrow> [])
         else if includes_str content '';;'' then
           (case map trim (split_str content '';;'') of
              front # back # _ \<Rightarrow>
                if front \<noteq> [] \<and> back \<noteq> []
                then [mk_row block ancestors ''-fwd'' front back Forward]
                else []
            | _ \<Rightarrow> [])
         else if cloze_test content then
           [mk_row block ancestors ''-cloze'' content ''...'' Cloze]
         else [])"

definition tableData :: "block list \<Rightarrow> tableRow list" where
  "tableData blocks = concat (map (rows_of_block blocks) [0..<length blocks])"

section \<open>Study extraction (App.tsx, extractCards)\<close>

definition defaultSrs :: srsData where
  "defaultSrs = \<lparr>nextReview = 0, interval = 0, easeFactor = 2.5, repetitions = 0,
                 lapses = Some 0, disabled = Some False, lastReview = None\<rparr>"

definition srs_or_default :: "block \<Rightarrow> srsData" where
  "srs_or_default b = (case b_srsData b of None \<Rightarrow> defaultSrs | Some s \<Rightarrow> s)"

text \<open>\<^verbatim>\<open>{ ...baseCard, id, front, back, cardType }\<close>\<close>

definition baseCard :: "document \<Rightarrow> block \<Rightarrow> srsData \<Rightarrow> string \<Rightarrow> string \<Rightarrow> string \<Rightarrow> cardType \<Rightarrow> flashcard" where
  "baseCard doc b srs sfx front back ty =
     \<lparr>c_id = b_id b @ sfx, c_front = front, c_back = back,
      c_blockId = b_id b, c_docId = d_id doc, c_cardType = ty,
      c_status = (if repetitions srs = 0 then New else Review),
      c_nextReview = nextReview srs, c_interval = interval srs, c_easeFactor = easeFactor srs,
      c_repetitions = repetitions srs, c_lapses = lapses srs, c_disabled = disabled srs\<rparr>"

text \<open>
  The body of the inner \<^verbatim>\<open>doc.blocks.forEach(block => ...)\<close>. Both delimiter branches
  are guarded by \<^verbatim>\<open>parts.length >= 2\<close> only, and both push one card of type forward.
\<close>

definition cards_of_block :: "document \<Rightarrow> block \<Rightarrow> flashcard list" where
  "cards_of_block doc b =
     (let srs = srs_or_default b
      in if disabled srs = Some True then []
         else if includes_str (b_content b) ''::'' then
           (let parts = split_str (b_content b) ''::''
            in if length parts \<ge> 2
               then [baseCard doc b srs ''_fwd'' (trim (parts ! 0)) (trim (parts ! 1)) Forward]
               else [])
         else if includes_str (b_content b) '';;'' then
           (let parts = split_str (b_content b) '';;''
            in if length parts \<ge> 2
               then [baseCard doc b srs ''_fwd'' (trim (parts ! 0)) (trim (parts ! 1)) Forward]
               else [])
         else if cloze_test (b_content b) then
           [baseCard doc b srs ''_cloze'' (b_content b) (b_content b) Cloze]
         else [])"

definition extractCards :: "document list \<Rightarrow> flashcard list" where
  "extractCards docsToScan =
     concat (map (\<lambda>doc. concat (map (cards_of_block doc) (d_blocks doc))) docsToScan)"


section \<open>Starting a study session (App.tsx, handleStartStudy)\<close>

datatype studyMode = Spaced | All | Order | Flashcards

text \<open>
  \<^verbatim>\<open>if (options.specificCardIds && options.specificCardIds.length > 0)\<close>: the extracted
  cards are kept when their id is in the given list. An absent or empty list keeps all.
\<close>

definition filterSpecific :: "string list option \<Rightarrow> flashcard list \<Rightarrow> flashcard list" where
  "filterSpecific specificCardIds cards =
     (case specificCardIds of
        None \<Rightarrow> cards
      | Some ids \<Rightarrow> if length ids > 0 then filter (\<lambda>c. c_id c \<in> set ids) cards else cards)"

text \<open>
  The Fisher-Yates loop \<^verbatim>\<open>for (let i = cards.length - 1; i > 0; i--)\<close>. The random
  source is a parameter: \<open>rnd i\<close> stands for the draw at step \<open>i\<close>, reduced to the
  range \<open>0..i\<close> of \<^verbatim>\<open>Math.floor(Math.random() * (i + 1))\<close>.
\<close>

fun shuffle_loop :: "(nat \<Rightarrow> nat) \<Rightarrow> nat \<Rightarrow> 'a list \<Rightarrow> 'a list" where
  "shuffle_loop rnd 0 cards = cards"
| "shuffle_loop rnd (Suc k) cards =
     (let i = Suc k; j = rnd i mod (i + 1)
      in shuffle_loop rnd k (cards[i := cards ! j, j := cards ! i]))"

definition shuffle :: "(nat \<Rightarrow> nat) \<Rightarrow> 'a list \<Rightarrow> 'a list" where
  "shuffle rnd cards = shuffle_loop rnd (length cards - 1) cards"

text \<open>
  \<open>handleStartStudy\<close> returns the cards handed to \<^verbatim>\<open>setStudyCards\<close>, or \<open>None\<close> when it
  alerts "No flashcards found!" and leaves the editor open. \<open>activeDoc\<close> is
  \<^verbatim>\<open>documents.find(d => d.id === activeDocId) || documents[0]\<close>.
\<close>

definition activeDoc :: "document list \<Rightarrow> string option \<Rightarrow> document option" where
  "activeDoc documents activeDocId =
     (case find (\<lambda>d. Some (d_id d) = activeDocId) documents of
        Some d \<Rightarrow> Some d
      | None \<Rightarrow> (case documents of [] \<Rightarrow> None | d # _ \<Rightarrow> Some d))"

definition handleStartStudy ::
  "(nat \<Rightarrow> nat) \<Rightarrow> document list \<Rightarrow> string option \<Rightarrow> studyMode \<Rightarrow> string list option \<Rightarrow> flashcard list option" where
  "handleStartStudy rnd documents activeDocId mode specificCardIds =
     (let docsToStudy =
            (if mode = All \<or> mode = Flashcards then documents
             else (case activeDoc documents activeDocId of Some d \<Rightarrow> [d] | None \<Rightarrow> documents));
          cards = filterSpecific specificCardIds (extractCards docsToStudy)
      in if length cards = 0 then None
         else if mode \<noteq> Order then Some (shuffle rnd cards)
         else Some cards)"

section \<open>Recording a rating (App.tsx, handleUpdateCardProgress)\<close>

definition is_fail :: "rating \<Rightarrow> bool" where
  "is_fail r = (r = AGAIN \<or> r = TWO_SEC)"

text \<open>
  The inner \<^verbatim>\<open>doc.blocks.map(block => ...)\<close> callback. \<open>now\<close> is \<^verbatim>\<open>Date.now()\<close>;
  \<^verbatim>\<open>currentSRS.lapses || 0\<close> reads an absent counter as 0.
\<close>

definition rate_block :: "nat \<Rightarrow> flashcard \<Rightarrow> rating \<Rightarrow> block \<Rightarrow> block" where
  "rate_block now crd r b =
     (if b_id b \<noteq> c_blockId crd then b
      else let currentSRS = srs_or_default b;
               newLapses = (case lapses currentSRS of None \<Rightarrow> 0 | Some n \<Rightarrow> n);
               newReps = repetitions currentSRS
           in if is_fail r
              then b\<lparr>b_srsData := Some (currentSRS\<lparr>repetitions := 0, lapses := Some (newLapses + 1),
                                                  lastReview := Some now\<rparr>)\<rparr>
              else b\<lparr>b_srsData := Some (currentSRS\<lparr>repetitions := newReps + 1, lapses := Some newLapses,
                                                  lastReview := Some now\<rparr>)\<rparr>)"

definition handleUpdateCardProgress :: "nat \<Rightarrow> flashcard \<Rightarrow> rating \<Rightarrow> document list \<Rightarrow> document list" where
  "handleUpdateCardProgress now crd r prevDocs =
     map (\<lambda>doc. if d_id doc \<noteq> c_docId crd then doc
                else doc\<lparr>d_blocks := map (rate_block now crd r) (d_blocks doc)\<rparr>) prevDocs"

section \<open>The study session (StudySession.tsx)\<close>

text \<open>
  The component state the scheduler uses. \<open>requeueTimers\<close> is the list of the pending
  \<^verbatim>\<open>setTimeout\<close> callbacks of \<open>handleRate\<close>, each with the \<open>cardToRequeue\<close> it closed over;
  the source keeps no handle of them. \<open>currentIndexRef\<close> is the ref that an effect copies
  from \<open>currentIndex\<close> after each render.
\<close>

record session =
  originalQueue :: "flashcard list"
  queue :: "flashcard list"
  currentIndex :: nat
  currentIndexRef :: nat
  missedCards :: "string list"
  isRevealed :: bool
  isFlipped :: bool
  requeueTimers :: "flashcard list"

definition startSession :: "flashcard list \<Rightarrow> session" where
  "startSession cards =
     \<lparr>originalQueue = cards, queue = cards, currentIndex = 0, currentIndexRef = 0,
      missedCards = [], isRevealed = False, isFlipped = False, requeueTimers = []\<rparr>"

text \<open>\<^verbatim>\<open>queue[currentIndex]\<close>, \<^verbatim>\<open>undefined\<close> past the end.\<close>

definition currentCard :: "session \<Rightarrow> flashcard option" where
  "currentCard s = (if currentIndex s < length (queue s) then Some (queue s ! currentIndex s) else None)"

text \<open>\<^verbatim>\<open>useEffect(() => { currentIndexRef.current = currentIndex }, [currentIndex])\<close>\<close>

definition syncRef :: "session \<Rightarrow> session" where
  "syncRef s = s\<lparr>currentIndexRef := currentIndex s\<rparr>"

text \<open>
  \<open>handleRate\<close>, on the documents of the application and the session. The callback
  \<open>onUpdateCardProgress\<close> is \<open>handleUpdateCardProgress\<close>. A fail rating schedules a timer.
\<close>

definition handleRate :: "nat \<Rightarrow> rating \<Rightarrow> document list \<times> session \<Rightarrow> document list \<times> session" where
  "handleRate now r ds =
     (case currentCard (snd ds) of
        None \<Rightarrow> ds
      | Some crd \<Rightarrow>
          (handleUpdateCardProgress now crd r (fst ds),
           if is_fail r
           then (snd ds)\<lparr>currentIndex := currentIndex (snd ds) + 1,
                         requeueTimers := requeueTimers (snd ds) @ [crd]\<rparr>
           else (snd ds)\<lparr>currentIndex := currentIndex (snd ds) + 1\<rparr>))"

text \<open>The updater passed to \<open>setQueue\<close> when the delay fires; \<^verbatim>\<open>splice(insertIndex, 0, card)\<close>.\<close>

definition requeue :: "nat \<Rightarrow> flashcard \<Rightarrow> flashcard list \<Rightarrow> flashcard list" where
  "requeue currentPos cardToRequeue currentQueue =
     (if currentPos > length currentQueue then currentQueue @ [cardToRequeue]
      else let insertIndex = (if currentPos < length currentQueue then currentPos + 1 else currentPos)
           in take insertIndex currentQueue @ cardToRequeue # drop insertIndex currentQueue)"

text \<open>The \<open>k\<close>-th pending timer fires: it reads the ref and updates the queue.\<close>

definition fireRequeue :: "nat \<Rightarrow> session \<Rightarrow> session" where
  "fireRequeue k s =
     (if k < length (requeueTimers s)
      then s\<lparr>queue := requeue (currentIndexRef s) (requeueTimers s ! k) (queue s),
             requeueTimers := take k (requeueTimers s) @ drop (Suc k) (requeueTimers s)\<rparr>
      else s)"

text \<open>The "Restart Session" button of the rating modes: \<^verbatim>\<open>() => { setCurrentIndex(0); }\<close>\<close>

definition restartSession :: "session \<Rightarrow> session" where
  "restartSession s = s\<lparr>currentIndex := 0\<rparr>"

definition handleRestartAll :: "session \<Rightarrow> session" where
  "handleRestartAll s =
     s\<lparr>queue := originalQueue s, missedCards := [], currentIndex := 0,
       isRevealed := False, isFlipped := False\<rparr>"

definition handleRestartMissed :: "session \<Rightarrow> session" where
  "handleRestartMissed s =
     s\<lparr>queue := filter (\<lambda>c. c_id c \<in> set (missedCards s)) (originalQueue s), missedCards := [],
       currentIndex := 0, isRevealed := False, isFlipped := False\<rparr>"

section \<open>Card table tabs (CardTable.tsx, getFilteredData and counts)\<close>

datatype tabType = TabAll | TabLeech | TabStruggling | TabDisabled | TabEnabled | TabNew

text \<open>
  The \<^verbatim>\<open>switch (activeTab)\<close> of \<open>getFilteredData\<close>, on the rows left by the text filter.
  \<open>leechThreshold\<close> comes from \<^verbatim>\<open>parseInt\<close> and is an integer.
\<close>

definition tabFilter :: "int \<Rightarrow> tabType \<Rightarrow> tableRow list \<Rightarrow> tableRow list" where
  "tabFilter leechThreshold activeTab data =
     (case activeTab of
        TabLeech \<Rightarrow> filter (\<lambda>r. int (r_lapses r) \<ge> leechThreshold \<and> \<not> r_disabled r) data
      | TabStruggling \<Rightarrow>
          filter (\<lambda>r. r_lapses r > 0 \<and> int (r_lapses r) < leechThreshold \<and> \<not> r_disabled r) data
      | TabDisabled \<Rightarrow> filter (\<lambda>r. r_disabled r) data
      | TabNew \<Rightarrow> filter (\<lambda>r. r_repetitions r = 0 \<and> \<not> r_disabled r) data
      | TabEnabled \<Rightarrow> filter (\<lambda>r. \<not> r_disabled r) data
      | TabAll \<Rightarrow> data)"

text \<open>The \<open>counts\<close> memo: one number per tab, in the order of the source.\<close>

record tabCounts =
  n_leech :: nat
  n_struggling :: nat
  n_disabled :: nat
  n_new :: nat
  n_enabled :: nat
  n_all :: nat

definition counts :: "int \<Rightarrow> tableRow list \<Rightarrow> tabCounts" where
  "counts leechThreshold rows =
     \<lparr>n_leech = length (filter (\<lambda>r. int (r_lapses r) \<ge> leechThreshold \<and> \<not> r_disabled r) rows),
      n_struggling =
        length (filter (\<lambda>r. r_lapses r > 0 \<and> int (r_lapses r) < leechThreshold \<and> \<not> r_disabled r) rows),
      n_disabled = length (filter (\<lambda>r. r_disabled r) rows),
      n_new = length (filter (\<lambda>r. r_repetitions r = 0 \<and> \<not> r_disabled r) rows),
      n_enabled = length (filter (\<lambda>r. \<not> r_disabled r) rows),
      n_all = length rows\<rparr>"

section \<open>The outline as the specification describes it\<close>

text \<open>
  The specification's words, to compare the loop with: the parent of a block is the
  nearest preceding block with a strictly smaller level, and the ancestor path is the
  chain of parents, from the root down to the immediate parent.
\<close>

fun nearest_smaller :: "nat \<Rightarrow> block list \<Rightarrow> nat \<Rightarrow> nat option" where
  "nearest_smaller 0 blocks lvl = None"
| "nearest_smaller (Suc i) blocks lvl =
     (if b_level (blocks ! i) < lvl then Some i else nearest_smaller i blocks lvl)"

definition parentOf :: "block list \<Rightarrow> nat \<Rightarrow> nat option" where
  "parentOf blocks index = nearest_smaller index blocks (b_level (blocks ! index))"

function spec_ancestorPath :: "block list \<Rightarrow> nat \<Rightarrow> string list" where
  "spec_ancestorPath blocks index =
     (case parentOf blocks index of
        None \<Rightarrow> []
      | Some p \<Rightarrow> spec_ancestorPath blocks p @ [b_content (blocks ! p)])"
  by pat_completeness auto
termination
proof (relation "measure snd")
  show "wf (measure snd)" by simp
next
  fix blocks :: "block list" and index p :: nat
  assume par: "parentOf blocks index = Some p"
  have "nearest_smaller i blocks lvl = Some p \<Longrightarrow> p < i" for i lvl
    by (induction i) (auto split: if_splits)
  with par have "p < index" by (simp add: parentOf_def)
  then show "((blocks, p), (blocks, index)) \<in> measure snd" by simp
qed

declare spec_ancestorPath.simps [simp del]


section \<open>Context path of the current card (StudySession.tsx, getContextPath)\<close>

text \<open>The same backward loop, on the trimmed contents.\<close>

fun parents_loop :: "nat \<Rightarrow> block list \<Rightarrow> nat \<Rightarrow> string list \<Rightarrow> string list" where
  "parents_loop 0 blocks currentLevel parents = parents"
| "parents_loop (Suc i) blocks currentLevel parents =
     (if b_level (blocks ! i) < currentLevel
      then (if b_level (blocks ! i) = 0
            then trim (b_content (blocks ! i)) # parents
            else parents_loop i blocks (b_level (blocks ! i)) (trim (b_content (blocks ! i)) # parents))
      else parents_loop i blocks currentLevel parents)"

fun findIndex :: "('a \<Rightarrow> bool) \<Rightarrow> 'a list \<Rightarrow> nat option" where
  "findIndex P [] = None"
| "findIndex P (x # xs) = (if P x then Some 0 else map_option Suc (findIndex P xs))"

text \<open>\<^verbatim>\<open>doc.title || "Untitled"\<close>\<close>

definition title_or_untitled :: "document \<Rightarrow> string" where
  "title_or_untitled doc = (if d_title doc = [] then ''Untitled'' else d_title doc)"

definition getContextPath :: "bool \<Rightarrow> document list \<Rightarrow> flashcard option \<Rightarrow> string list" where
  "getContextPath showContext documents cur =
     (case cur of
        None \<Rightarrow> []
      | Some crd \<Rightarrow>
          if \<not> showContext then []
          else (case find (\<lambda>d. d_id d = c_docId crd) documents of
                  None \<Rightarrow> []
                | Some doc \<Rightarrow>
                    (case findIndex (\<lambda>b. b_id b = c_blockId crd) (d_blocks doc) of
                       None \<Rightarrow> [title_or_untitled doc]
                     | Some blockIndex \<Rightarrow>
                         title_or_untitled doc #
                         parents_loop blockIndex (d_blocks doc)
                           (b_level (d_blocks doc ! blockIndex)) [])))"

section \<open>Sessions as runs of events\<close>

text \<open>
  What can happen to a mounted session: a rating, a pending requeue timer firing, and
  the three restart buttons. React renders after each of them and then runs the effect
  that refreshes \<open>currentIndexRef\<close>, so every step ends with \<open>syncRef\<close>.
\<close>

datatype event =
  Rate nat rating
| Fire nat
| RestartSession
| RestartAll
| RestartMissed

fun step :: "event \<Rightarrow> document list \<times> session \<Rightarrow> document list \<times> session" where
  "step (Rate now r) ds = apsnd syncRef (handleRate now r ds)"
| "step (Fire k) ds = apsnd (syncRef \<circ> fireRequeue k) ds"
| "step RestartSession ds = apsnd (syncRef \<circ> restartSession) ds"
| "step RestartAll ds = apsnd (syncRef \<circ> handleRestartAll) ds"
| "step RestartMissed ds = apsnd (syncRef \<circ> handleRestartMissed) ds"

fun run :: "event list \<Rightarrow> document list \<times> session \<Rightarrow> document list \<times> session" where
  "run [] ds = ds"
| "run (e # es) ds = run es (step e ds)"

section \<open>Example inputs\<close>

definition plain_block :: "string \<Rightarrow> string \<Rightarrow> nat \<Rightarrow> block" where
  "plain_block i c l = \<lparr>b_id = i, b_content = c, b_level = l, b_srsData = None\<rparr>"

definition plain_doc :: "block list \<Rightarrow> document" where
  "plain_doc bs = \<lparr>d_id = ''d1'', d_folderId = None, d_title = ''Notes'', d_blocks = bs, d_lastModified = 0\<rparr>"

text \<open>The card that \<open>extractCards\<close> derives from a block \<open>front ;; back\<close> of \<open>plain_doc\<close>.\<close>

definition plain_card :: "string \<Rightarrow> string \<Rightarrow> string \<Rightarrow> flashcard" where
  "plain_card i front back =
     \<lparr>c_id = i @ ''_fwd'', c_front = front, c_back = back, c_blockId = i, c_docId = ''d1'',
      c_cardType = Forward, c_status = New, c_nextReview = 0, c_interval = 0, c_easeFactor = 2.5,
      c_repetitions = 0, c_lapses = Some 0, c_disabled = Some False\<rparr>"

definition outline6 :: "block list" where
  "outline6 = [plain_block ''n0'' ''t0'' 0, plain_block ''n1'' ''t1'' 1, plain_block ''n2'' ''t2'' 1,
               plain_block ''n3'' ''t3'' 2, plain_block ''n4'' ''t4'' 0, plain_block ''n5'' ''t5'' 1]"


section \<open>Splitting at the delimiters\<close>

lemma includes_prefix: "prefix sep s \<Longrightarrow> includes_str s sep"
  by (cases s) auto

lemma includes_append: "includes_str (a @ sep @ r) sep"
  by (induction a) (auto simp: includes_prefix)

lemma prefix_short:
  assumes "prefix sep (u @ v)" "length sep \<le> length u"
  shows "prefix sep u"
  using assms by (auto simp: prefix_append)

lemma split_from_first:
  "sep \<noteq> [] \<Longrightarrow> \<not> includes_str (a @ butlast sep) sep \<Longrightarrow>
   split_from sep (a @ sep @ rest) = a # split_from sep rest"
proof (induction a)
  case Nil
  then show ?case by (cases sep) auto
next
  case (Cons x a)
  have np: "\<not> prefix sep (x # a @ butlast sep)" and ni: "\<not> includes_str (a @ butlast sep) sep"
    using Cons.prems by auto
  have eq: "x # a @ sep @ rest = (x # a @ butlast sep) @ (last sep # rest)"
    using Cons.prems(1) by (simp add: append_butlast_last_id [symmetric] del: append_butlast_last_id)
  have "\<not> prefix sep (x # a @ sep @ rest)"
  proof
    assume "prefix sep (x # a @ sep @ rest)"
    then have "prefix sep ((x # a @ butlast sep) @ (last sep # rest))" using eq by simp
    then have "prefix sep (x # a @ butlast sep)"
      by (rule prefix_short) simp
    with np show False by simp
  qed
  then show ?case using Cons.IH [OF Cons.prems(1) ni] by simp
qed

lemma split_two_colons:
  assumes "\<not> includes_str (a @ '':'') ''::''" and "\<not> includes_str (b @ '':'') ''::''"
  shows "split_str (a @ ''::'' @ b @ ''::'' @ c) ''::'' = a # b # split_str c ''::''"
proof -
  have "split_from ''::'' (a @ ''::'' @ (b @ ''::'' @ c)) = a # split_from ''::'' (b @ ''::'' @ c)"
    by (rule split_from_first) (use assms in simp_all)
  also have "split_from ''::'' (b @ ''::'' @ c) = b # split_from ''::'' c"
    by (rule split_from_first) (use assms in simp_all)
  finally show ?thesis by (simp add: split_str_def)
qed

lemma split_from_not_Nil: "split_from sep s \<noteq> []"
  by (induction sep s rule: split_from.induct) (auto split: list.splits)

lemma split_includes_length:
  "sep \<noteq> [] \<Longrightarrow> includes_str s sep \<Longrightarrow> 2 \<le> length (split_from sep s)"
proof (induction s)
  case Nil
  then show ?case by simp
next
  case (Cons c cs)
  show ?case
  proof (cases "prefix sep (c # cs)")
    case True
    then show ?thesis
      using Cons.prems(1) split_from_not_Nil [of sep "drop (length sep) (c # cs)"]
      by (cases "split_from sep (drop (length sep) (c # cs))") simp_all
  next
    case False
    with Cons show ?thesis by (auto split: list.splits)
  qed
qed

section \<open>What the card table derives from a delimiter block\<close>

text \<open>
  The card table emits the pair of bidirectional rows for a \<open>::\<close> block and one forward
  row for a \<open>;;\<close> block, and nothing when a side is empty after trimming.
\<close>

lemma rows_of_block_two_way:
  assumes "includes_str (b_content (blocks ! index)) ''::''"
    and "map trim (split_str (b_content (blocks ! index)) ''::'') = front # back # rest"
  shows "rows_of_block blocks index =
           (if front \<noteq> [] \<and> back \<noteq> []
            then [mk_row (blocks ! index) (ancestorsOf blocks index) ''-fwd'' front back Bidirectional,
                  mk_row (blocks ! index) (ancestorsOf blocks index) ''-bwd'' back front Bidirectional]
            else [])"
  using assms by (simp add: rows_of_block_def Let_def)

lemma rows_of_block_forward:
  assumes "\<not> includes_str (b_content (blocks ! index)) ''::''"
    and "includes_str (b_content (blocks ! index)) '';;''"
    and "map trim (split_str (b_content (blocks ! index)) '';;'') = front # back # rest"
  shows "rows_of_block blocks index =
           (if front \<noteq> [] \<and> back \<noteq> []
            then [mk_row (blocks ! index) (ancestorsOf blocks index) ''-fwd'' front back Forward]
            else [])"
  using assms by (simp add: rows_of_block_def Let_def)


section \<open>What the study extractor derives from a delimiter block\<close>

text \<open>
  In \<open>extractCards\<close> the guard \<^verbatim>\<open>parts.length >= 2\<close> always holds once the content
  includes the delimiter, so an enabled \<open>::\<close> block yields exactly one card, of type
  forward, whatever its two sides are.
\<close>

lemma cards_of_block_two_way:
  assumes "includes_str (b_content b) ''::''" and "disabled (srs_or_default b) \<noteq> Some True"
  shows "cards_of_block doc b =
           [baseCard doc b (srs_or_default b) ''_fwd''
              (trim (split_str (b_content b) ''::'' ! 0)) (trim (split_str (b_content b) ''::'' ! 1))
              Forward]"
  using assms split_includes_length [of "''::''" "b_content b"]
  by (simp add: cards_of_block_def Let_def split_str_def)

text \<open>
  Claim C1, at the block \<open>a :: b\<close>: the study extractor returns one card of type forward
  with the id suffix \<open>_fwd\<close>, where the card table returns the two bidirectional rows.
\<close>

theorem extractCards_two_way:
  "extractCards [plain_doc [plain_block ''b1'' ''a :: b'' 0]] = [plain_card ''b1'' ''a'' ''b''] \<and>
   c_cardType (plain_card ''b1'' ''a'' ''b'') = Forward \<and>
   map r_type (tableData [plain_block ''b1'' ''a :: b'' 0]) = [Bidirectional, Bidirectional]"
  by (simp add: extractCards_def cards_of_block_def tableData_def rows_of_block_def plain_doc_def
      plain_block_def plain_card_def srs_or_default_def defaultSrs_def baseCard_def mk_row_def
      split_str_def trim_def is_space_def Let_def)

text \<open>
  Claim C4, at the block \<open>:: b\<close>, whose front is empty: the study extractor returns a
  card with the empty front, where the card table returns no row.
\<close>

theorem extractCards_empty_side:
  "extractCards [plain_doc [plain_block ''b2'' '':: b'' 0]] = [plain_card ''b2'' [] ''b''] \<and>
   tableData [plain_block ''b2'' '':: b'' 0] = []"
  by (simp add: extractCards_def cards_of_block_def tableData_def rows_of_block_def plain_doc_def
      plain_block_def plain_card_def srs_or_default_def defaultSrs_def baseCard_def mk_row_def
      split_str_def trim_def is_space_def Let_def)

text \<open>
  Claim C10. When the content is \<open>a::b::c\<close>, with the first delimiter right after \<open>a\<close> and
  the second right after \<open>b\<close>, the first two pieces of the split are \<open>a\<close> and \<open>b\<close>; the
  rows of the card table and the card of the study extractor have the trimmed \<open>a\<close> and
  \<open>b\<close> as their sides, and \<open>c\<close> does not occur in them.
\<close>

theorem third_part_discarded:
  assumes "\<not> includes_str (a @ '':'') ''::''" and "\<not> includes_str (b @ '':'') ''::''"
    and "b_content blk = a @ ''::'' @ b @ ''::'' @ c" and "blocks ! index = blk"
  shows "split_str (b_content blk) ''::'' = a # b # split_str c ''::'' \<and>
         rows_of_block blocks index =
           (if trim a \<noteq> [] \<and> trim b \<noteq> []
            then [mk_row blk (ancestorsOf blocks index) ''-fwd'' (trim a) (trim b) Bidirectional,
                  mk_row blk (ancestorsOf blocks index) ''-bwd'' (trim b) (trim a) Bidirectional]
            else []) \<and>
         cards_of_block doc blk =
           (if disabled (srs_or_default blk) = Some True then []
            else [baseCard doc blk (srs_or_default blk) ''_fwd'' (trim a) (trim b) Forward])"
proof -
  have sp: "split_str (b_content blk) ''::'' = a # b # split_str c ''::''"
    using assms(1,2) unfolding assms(3) by (rule split_two_colons)
  have inc: "includes_str (b_content blk) ''::''"
    unfolding assms(3) by (rule includes_append)
  show ?thesis
    using sp inc assms(4) by (simp add: rows_of_block_def cards_of_block_def Let_def)
qed

theorem third_part_discarded_witness:
  "split_str ''a::b::c'' ''::'' = [''a'', ''b'', ''c''] \<and>
   map r_front (rows_of_block [plain_block ''b1'' ''a::b::c'' 0] 0) = [''a'', ''b''] \<and>
   map r_back (rows_of_block [plain_block ''b1'' ''a::b::c'' 0] 0) = [''b'', ''a''] \<and>
   cards_of_block (plain_doc []) (plain_block ''b1'' ''a::b::c'' 0) = [plain_card ''b1'' ''a'' ''b'']"
proof -
  have h1: "\<not> includes_str (''a'' @ '':'') ''::''" by simp
  have h2: "\<not> includes_str (''b'' @ '':'') ''::''" by simp
  have h3: "b_content (plain_block ''b1'' ''a::b::c'' 0) = ''a'' @ ''::'' @ ''b'' @ ''::'' @ ''c''"
    by (simp add: plain_block_def)
  have h4: "[plain_block ''b1'' ''a::b::c'' 0] ! 0 = plain_block ''b1'' ''a::b::c'' 0" by simp
  have t: "trim ''a'' = ''a''" "trim ''b'' = ''b''" by (simp_all add: trim_def is_space_def)
  have s: "split_str ''c'' ''::'' = [''c'']" by (simp add: split_str_def)
  from third_part_discarded [OF h1 h2 h3 h4, of "plain_doc []"] show ?thesis
    unfolding t s
    by (simp add: mk_row_def baseCard_def plain_card_def plain_doc_def plain_block_def
        srs_or_default_def defaultSrs_def)
qed


section \<open>Card ids of the two derivations\<close>

lemma rows_of_block_ids:
  assumes "r \<in> set (rows_of_block blocks index)"
  shows "r_id r = b_id (blocks ! index) @ ''-fwd'' \<or> r_id r = b_id (blocks ! index) @ ''-bwd'' \<or>
         r_id r = b_id (blocks ! index) @ ''-cloze''"
proof (cases "includes_str (b_content (blocks ! index)) ''::''")
  case True
  with assms show ?thesis
    by (cases "map trim (split_str (b_content (blocks ! index)) ''::'')" rule: remdups_adj.cases)
       (auto simp: rows_of_block_def mk_row_def Let_def split: if_splits)
next
  case n1: False
  show ?thesis
  proof (cases "includes_str (b_content (blocks ! index)) '';;''")
    case True
    with n1 assms show ?thesis
      by (cases "map trim (split_str (b_content (blocks ! index)) '';;'')" rule: remdups_adj.cases)
         (auto simp: rows_of_block_def mk_row_def Let_def split: if_splits)
  next
    case False
    with n1 assms show ?thesis
      by (auto simp: rows_of_block_def mk_row_def Let_def split: if_splits)
  qed
qed

lemma cards_of_block_ids:
  assumes "c \<in> set (cards_of_block doc b)"
  shows "c_id c = b_id b @ ''_fwd'' \<or> c_id c = b_id b @ ''_cloze''"
  using assms
  by (simp add: cards_of_block_def baseCard_def Let_def split: if_splits)

lemma last_differs: "s \<noteq> [] \<Longrightarrow> t \<noteq> [] \<Longrightarrow> last s \<noteq> last t \<Longrightarrow> x @ s \<noteq> y @ t"
  by (metis last_appendR)

lemma dash_not_underscore:
  "x @ ''-fwd'' \<noteq> y @ ''_fwd''" "x @ ''-bwd'' \<noteq> y @ ''_fwd''" "x @ ''-cloze'' \<noteq> y @ ''_cloze''"
  "x @ ''-fwd'' \<noteq> y @ ''_cloze''" "x @ ''-bwd'' \<noteq> y @ ''_cloze''" "x @ ''-cloze'' \<noteq> y @ ''_fwd''"
proof -
  show "x @ ''-fwd'' \<noteq> y @ ''_fwd''" by simp
  show "x @ ''-bwd'' \<noteq> y @ ''_fwd''" by simp
  show "x @ ''-cloze'' \<noteq> y @ ''_cloze''" by simp
  show "x @ ''-fwd'' \<noteq> y @ ''_cloze''" by (rule last_differs) simp_all
  show "x @ ''-bwd'' \<noteq> y @ ''_cloze''" by (rule last_differs) simp_all
  show "x @ ''-cloze'' \<noteq> y @ ''_fwd''" by (rule last_differs) simp_all
qed

lemma table_id_not_card_id:
  assumes "r \<in> set (tableData blocks)" "c \<in> set (extractCards docs)"
  shows "r_id r \<noteq> c_id c"
proof -
  from assms(1) obtain index where "r \<in> set (rows_of_block blocks index)"
    by (auto simp: tableData_def)
  note r = rows_of_block_ids [OF this]
  from assms(2) obtain doc b where "c \<in> set (cards_of_block doc b)"
    by (auto simp: extractCards_def)
  note c = cards_of_block_ids [OF this]
  from r c show ?thesis
    using dash_not_underscore [of "b_id (blocks ! index)" "b_id b"] by metis
qed

text \<open>
  Claim C5. The ids of the card table end in \<open>-fwd\<close>, \<open>-bwd\<close> or \<open>-cloze\<close>, the ids of
  the study extractor in \<open>_fwd\<close> or \<open>_cloze\<close>, so no id of the one is an id of the other,
  whatever the block ids are. A non-empty list of card table ids, passed as
  \<open>specificCardIds\<close>, therefore filters the extracted cards down to nothing, and
  \<open>handleStartStudy\<close> starts no session.
\<close>

theorem table_ids_select_nothing:
  assumes "ids \<noteq> []" and "set ids \<subseteq> r_id ` set (tableData blocks)"
  shows "r_id ` set (tableData blocks) \<inter> c_id ` set (extractCards docs) = {} \<and>
         filterSpecific (Some ids) (extractCards docs) = [] \<and>
         handleStartStudy rnd documents activeDocId mode (Some ids) = None"
proof -
  have dis: "r_id ` set (tableData blocks) \<inter> c_id ` set (extractCards ds) = {}" for ds
    using table_id_not_card_id [of _ blocks _ ds] by auto
  have fil: "filterSpecific (Some ids) (extractCards ds) = []" for ds
    using assms dis [of ds] by (auto simp: filterSpecific_def filter_empty_conv)
  show ?thesis
    using dis fil by (simp add: handleStartStudy_def Let_def)
qed

theorem table_ids_select_nothing_witness:
  "[''b1-fwd'', ''b1-bwd''] \<noteq> [] \<and>
   set [''b1-fwd'', ''b1-bwd''] \<subseteq> r_id ` set (tableData [plain_block ''b1'' ''a :: b'' 0]) \<and>
   extractCards [plain_doc [plain_block ''b1'' ''a :: b'' 0]] \<noteq> [] \<and>
   filterSpecific (Some [''b1-fwd'', ''b1-bwd'']) (extractCards [plain_doc [plain_block ''b1'' ''a :: b'' 0]]) = [] \<and>
   handleStartStudy (\<lambda>i. 0) [plain_doc [plain_block ''b1'' ''a :: b'' 0]] (Some ''d1'') Spaced
     (Some [''b1-fwd'', ''b1-bwd'']) = None"
proof -
  have h1: "[''b1-fwd'', ''b1-bwd''] \<noteq> []" by simp
  have h2: "set [''b1-fwd'', ''b1-bwd''] \<subseteq> r_id ` set (tableData [plain_block ''b1'' ''a :: b'' 0])"
    by (simp add: tableData_def rows_of_block_def plain_block_def mk_row_def
        split_str_def trim_def is_space_def Let_def)
  have h3: "extractCards [plain_doc [plain_block ''b1'' ''a :: b'' 0]] \<noteq> []"
    by (simp add: extractCards_def cards_of_block_def plain_doc_def plain_block_def
        srs_or_default_def defaultSrs_def split_str_def Let_def)
  from table_ids_select_nothing [OF h1 h2] h1 h2 h3 show ?thesis by blast
qed


section \<open>Ancestor resolution\<close>

lemma nearest_smaller_zero: "nearest_smaller i blocks 0 = None"
  by (induction i) auto

lemma ancestors_loop_path:
  "ancestors_loop i blocks lvl acc =
     (case nearest_smaller i blocks lvl of
        None \<Rightarrow> []
      | Some p \<Rightarrow> spec_ancestorPath blocks p @ [b_content (blocks ! p)]) @ acc"
proof (induction i arbitrary: lvl acc)
  case 0
  show ?case by simp
next
  case (Suc i)
  show ?case
  proof (cases "b_level (blocks ! i) < lvl")
    case False
    then show ?thesis using Suc.IH [of lvl acc] by simp
  next
    case lt: True
    show ?thesis
    proof (cases "b_level (blocks ! i) = 0")
      case True
      then have "spec_ancestorPath blocks i = []"
        by (subst spec_ancestorPath.simps) (simp add: parentOf_def nearest_smaller_zero)
      with lt True show ?thesis by simp
    next
      case False
      have "spec_ancestorPath blocks i =
            (case nearest_smaller i blocks (b_level (blocks ! i)) of
               None \<Rightarrow> []
             | Some p \<Rightarrow> spec_ancestorPath blocks p @ [b_content (blocks ! p)])"
        by (subst spec_ancestorPath.simps) (simp add: parentOf_def)
      with lt False Suc.IH [of "b_level (blocks ! i)" "b_content (blocks ! i) # acc"]
      show ?thesis by simp
    qed
  qed
qed

lemma levels6:
  assumes lv: "map b_level blocks = [0, 1, 1, 2, 0, 1]"
  shows "b_level (blocks ! 0) = 0" "b_level (blocks ! Suc 0) = 1"
        "b_level (blocks ! Suc (Suc 0)) = 1" "b_level (blocks ! Suc (Suc (Suc 0))) = 2"
proof -
  have len: "length blocks = 6" using arg_cong [OF lv, of length] by simp
  have n: "b_level (blocks ! i) = [0, 1, 1, 2, 0, 1] ! i" if "i < 6" for i
    using nth_map [of i blocks b_level] that len lv by simp
  show "b_level (blocks ! 0) = 0" using n [of 0] by simp
  show "b_level (blocks ! Suc 0) = 1" using n [of "Suc 0"] by simp
  show "b_level (blocks ! Suc (Suc 0)) = 1" using n [of "Suc (Suc 0)"] by simp
  show "b_level (blocks ! Suc (Suc (Suc 0))) = 2" using n [of "Suc (Suc (Suc 0))"] by simp
qed

text \<open>
  Claim C9. The backward scan of the card table returns, for every block sequence and
  every index, the chain of parents of the block from the root down to its immediate
  parent, where the parent of a block is the nearest preceding block with a strictly
  smaller level; levels may skip. For the levels 0, 1, 1, 2, 0, 1 the ancestors of index 2
  are the text of block 0, and the ancestors of index 3 are the texts of blocks 0 and 2.
\<close>

theorem ancestorsOf_is_path:
  "ancestorsOf blocks index = spec_ancestorPath blocks index \<and>
   (map b_level blocks = [0, 1, 1, 2, 0, 1] \<longrightarrow>
      ancestorsOf blocks 2 = [b_content (blocks ! 0)] \<and>
      ancestorsOf blocks 3 = [b_content (blocks ! 0), b_content (blocks ! 2)])"
proof (intro conjI impI)
  show "ancestorsOf blocks index = spec_ancestorPath blocks index"
    unfolding ancestorsOf_def ancestors_loop_path
    by (subst spec_ancestorPath.simps) (simp add: parentOf_def)
next
  assume lv: "map b_level blocks = [0, 1, 1, 2, 0, 1]"
  note l = levels6 [OF lv]
  show "ancestorsOf blocks 2 = [b_content (blocks ! 0)]"
    unfolding ancestorsOf_def numeral_2_eq_2 using l by simp
  show "ancestorsOf blocks 3 = [b_content (blocks ! 0), b_content (blocks ! 2)]"
    unfolding ancestorsOf_def numeral_3_eq_3 numeral_2_eq_2 using l by simp
qed

theorem ancestorsOf_is_path_witness:
  "map b_level outline6 = [0, 1, 1, 2, 0, 1] \<and>
   ancestorsOf outline6 2 = [''t0''] \<and> ancestorsOf outline6 3 = [''t0'', ''t2''] \<and>
   spec_ancestorPath outline6 3 = [''t0'', ''t2'']"
proof -
  have lv: "map b_level outline6 = [0, 1, 1, 2, 0, 1]"
    by (simp add: outline6_def plain_block_def)
  have c: "b_content (outline6 ! 0) = ''t0''" "b_content (outline6 ! 2) = ''t2''"
    by (simp_all add: outline6_def plain_block_def)
  note th = ancestorsOf_is_path [of outline6 3]
  from th have e: "spec_ancestorPath outline6 3 = ancestorsOf outline6 3" by simp
  from th lv have a2: "ancestorsOf outline6 2 = [b_content (outline6 ! 0)]"
    and a3: "ancestorsOf outline6 3 = [b_content (outline6 ! 0), b_content (outline6 ! 2)]"
    by blast+
  show ?thesis unfolding e a2 a3 c using lv by simp
qed

text \<open>
  The study session resolves the context of the current card by the same scan, on the
  trimmed contents and after the title of the document.
\<close>

lemma parents_loop_trim:
  "parents_loop i blocks lvl (map trim acc) = map trim (ancestors_loop i blocks lvl acc)"
proof (induction i arbitrary: lvl acc)
  case 0
  show ?case by simp
next
  case (Suc i)
  from Suc [of "b_level (blocks ! i)" "b_content (blocks ! i) # acc"] Suc [of lvl acc]
  show ?case by simp
qed

lemma getContextPath_ancestors:
  assumes "find (\<lambda>d. d_id d = c_docId crd) documents = Some doc"
    and "findIndex (\<lambda>b. b_id b = c_blockId crd) (d_blocks doc) = Some k"
  shows "getContextPath True documents (Some crd) =
           title_or_untitled doc # map trim (ancestorsOf (d_blocks doc) k)"
  using assms parents_loop_trim [of k "d_blocks doc" _ "[]"]
  by (simp add: getContextPath_def ancestorsOf_def)


section \<open>Classification of the card table\<close>

text \<open>
  Claim C8. For every list of rows and every leech threshold: no row is both leech and
  struggling; the leech rows, the struggling rows and the enabled rows without lapses
  together are the enabled rows; no row is both enabled and disabled; the enabled and the
  disabled rows together are all rows, and so are their counts.
\<close>

theorem classify_partition:
  "set (tabFilter L TabLeech rows) \<inter> set (tabFilter L TabStruggling rows) = {} \<and>
   set (tabFilter L TabLeech rows) \<union> set (tabFilter L TabStruggling rows) \<union>
     {r \<in> set (tabFilter L TabEnabled rows). r_lapses r = 0} = set (tabFilter L TabEnabled rows) \<and>
   set (tabFilter L TabEnabled rows) \<inter> set (tabFilter L TabDisabled rows) = {} \<and>
   set (tabFilter L TabEnabled rows) \<union> set (tabFilter L TabDisabled rows) = set (tabFilter L TabAll rows) \<and>
   n_enabled (counts L rows) + n_disabled (counts L rows) = n_all (counts L rows)"
proof -
  have "length (filter (\<lambda>r. \<not> r_disabled r) rows) + length (filter r_disabled rows) = length rows"
    using sum_length_filter_compl [of r_disabled rows] by simp
  then show ?thesis
    by (auto simp: tabFilter_def counts_def)
qed

section \<open>Recording a rating: what changes and what does not\<close>

lemma rate_block_other: "b_id b \<noteq> c_blockId crd \<Longrightarrow> rate_block now crd r b = b"
  by (simp add: rate_block_def)

lemma rate_block_same:
  assumes "b_id b = c_blockId crd"
  shows "rate_block now crd r b =
           b\<lparr>b_srsData := Some ((srs_or_default b)
               \<lparr>repetitions := (if is_fail r then 0 else repetitions (srs_or_default b) + 1),
                lapses := Some ((case lapses (srs_or_default b) of None \<Rightarrow> 0 | Some n \<Rightarrow> n)
                                + (if is_fail r then 1 else 0)),
                lastReview := Some now\<rparr>)\<rparr>"
  using assms by (simp add: rate_block_def Let_def)

text \<open>
  Claim C7, as the code has it. A rating leaves every document with another id and every
  block with another id as they are, and keeps the id, content and level of the rated
  block. In the record of the rated block it leaves interval, ease factor, next review
  and the disabled flag as they are read, sets repetitions to 0 and adds 1 to lapses on a
  fail rating (Again, TwoSec), adds 1 to repetitions on any other rating, and writes the
  current time into \<open>lastReview\<close>.
\<close>

theorem rating_frame:
  assumes "i < length docs" and "j < length (d_blocks (docs ! i))"
  shows "let docs' = handleUpdateCardProgress now crd r docs;
             b = d_blocks (docs ! i) ! j;
             b' = d_blocks (docs' ! i) ! j;
             srs = srs_or_default b;
             srs' = srs_or_default b'
         in length docs' = length docs \<and>
            length (d_blocks (docs' ! i)) = length (d_blocks (docs ! i)) \<and>
            d_id (docs' ! i) = d_id (docs ! i) \<and> d_title (docs' ! i) = d_title (docs ! i) \<and>
            d_folderId (docs' ! i) = d_folderId (docs ! i) \<and>
            d_lastModified (docs' ! i) = d_lastModified (docs ! i) \<and>
            (d_id (docs ! i) \<noteq> c_docId crd \<longrightarrow> docs' ! i = docs ! i) \<and>
            (b_id b \<noteq> c_blockId crd \<longrightarrow> b' = b) \<and>
            b_id b' = b_id b \<and> b_content b' = b_content b \<and> b_level b' = b_level b \<and>
            (d_id (docs ! i) = c_docId crd \<and> b_id b = c_blockId crd \<longrightarrow>
               b_srsData b' = Some srs' \<and>
               interval srs' = interval srs \<and> easeFactor srs' = easeFactor srs \<and>
               nextReview srs' = nextReview srs \<and> disabled srs' = disabled srs \<and>
               repetitions srs' = (if is_fail r then 0 else repetitions srs + 1) \<and>
               lapses srs' = Some ((case lapses srs of None \<Rightarrow> 0 | Some n \<Rightarrow> n)
                                   + (if is_fail r then 1 else 0)) \<and>
               lastReview srs' = Some now)"
proof -
  define b where "b = d_blocks (docs ! i) ! j"
  have d: "handleUpdateCardProgress now crd r docs ! i =
             (if d_id (docs ! i) \<noteq> c_docId crd then docs ! i
              else (docs ! i)\<lparr>d_blocks := map (rate_block now crd r) (d_blocks (docs ! i))\<rparr>)"
    using assms(1) by (simp add: handleUpdateCardProgress_def)
  have len: "length (handleUpdateCardProgress now crd r docs) = length docs"
    by (simp add: handleUpdateCardProgress_def)
  show ?thesis
  proof (cases "d_id (docs ! i) = c_docId crd")
    case False
    then show ?thesis using d len by (simp add: Let_def)
  next
    case True
    then have bl: "d_blocks (handleUpdateCardProgress now crd r docs ! i) ! j = rate_block now crd r b"
      using d assms(2) by (simp add: b_def)
    show ?thesis
    proof (cases "b_id b = c_blockId crd")
      case False
      then show ?thesis using d len bl True rate_block_other [of b crd now r]
        by (simp add: Let_def b_def)
    next
      case same: True
      show ?thesis using d len bl True same rate_block_same [OF same, of now r]
        by (simp add: Let_def b_def [symmetric] srs_or_default_def)
    qed
  qed
qed


theorem rating_frame_witness:
  "0 < length [plain_doc [plain_block ''b1'' ''q ;; a'' 0]] \<and>
   0 < length (d_blocks ([plain_doc [plain_block ''b1'' ''q ;; a'' 0]] ! 0)) \<and>
   srs_or_default (d_blocks (handleUpdateCardProgress 7 (plain_card ''b1'' ''q'' ''a'') AGAIN
        [plain_doc [plain_block ''b1'' ''q ;; a'' 0]] ! 0) ! 0)
     = defaultSrs\<lparr>repetitions := 0, lapses := Some 1, lastReview := Some 7\<rparr>"
proof -
  have h1: "0 < length [plain_doc [plain_block ''b1'' ''q ;; a'' 0]]" by simp
  have h2: "0 < length (d_blocks ([plain_doc [plain_block ''b1'' ''q ;; a'' 0]] ! 0))"
    by (simp add: plain_doc_def)
  from rating_frame [OF h1 h2, of 7 "plain_card ''b1'' ''q'' ''a''" AGAIN] h1 h2
  show ?thesis
    by (simp add: Let_def plain_doc_def plain_block_def plain_card_def is_fail_def
        srs_or_default_def defaultSrs_def)
qed

text \<open>
  Claim C7 as stated has the rating write repetitions and lapses only. After a Good
  rating at time 7 the \<open>lastReview\<close> field of the rated record has changed from
  undefined to 7.
\<close>

theorem rating_only_counters_counterexample:
  "lastReview (srs_or_default (d_blocks ([plain_doc [plain_block ''b1'' ''q ;; a'' 0]] ! 0) ! 0)) = None \<and>
   lastReview (srs_or_default (d_blocks (handleUpdateCardProgress 7 (plain_card ''b1'' ''q'' ''a'') GOOD
        [plain_doc [plain_block ''b1'' ''q ;; a'' 0]] ! 0) ! 0)) = Some 7"
  by (simp add: handleUpdateCardProgress_def rate_block_def Let_def plain_doc_def plain_block_def
      plain_card_def is_fail_def srs_or_default_def defaultSrs_def)

section \<open>The queue of a session\<close>

lemma handleRate_current:
  assumes "currentIndex s < length (queue s)"
  shows "snd (handleRate now r (docs, s)) =
           (if is_fail r
            then s\<lparr>currentIndex := currentIndex s + 1,
                   requeueTimers := requeueTimers s @ [queue s ! currentIndex s]\<rparr>
            else s\<lparr>currentIndex := currentIndex s + 1\<rparr>)"
  using assms by (simp add: handleRate_def currentCard_def)

lemma handleRate_complete:
  "\<not> currentIndex s < length (queue s) \<Longrightarrow> handleRate now r (docs, s) = (docs, s)"
  by (simp add: handleRate_def currentCard_def)

lemma fireRequeue_queue:
  assumes "k < length (requeueTimers t)"
  shows "queue (fireRequeue k t) =
           (if currentIndexRef t < length (queue t)
            then take (currentIndexRef t + 1) (queue t) @ (requeueTimers t ! k) #
                 drop (currentIndexRef t + 1) (queue t)
            else queue t @ [requeueTimers t ! k])"
  using assms by (simp add: fireRequeue_def requeue_def Let_def)

lemma step_originalQueue: "originalQueue (snd (step e ds)) = originalQueue (snd ds)"
proof (cases e)
  case (Rate now r)
  then show ?thesis
    by (cases ds) (simp add: handleRate_def syncRef_def split: option.splits)
next
  case (Fire k)
  then show ?thesis by (cases ds) (simp add: fireRequeue_def syncRef_def)
next
  case RestartSession
  then show ?thesis by (cases ds) (simp add: restartSession_def syncRef_def)
next
  case RestartAll
  then show ?thesis by (cases ds) (simp add: handleRestartAll_def syncRef_def)
next
  case RestartMissed
  then show ?thesis by (cases ds) (simp add: handleRestartMissed_def syncRef_def)
qed

lemma run_originalQueue: "originalQueue (snd (run es ds)) = originalQueue (snd ds)"
  by (induction es arbitrary: ds) (simp_all add: step_originalQueue)

lemma snd_step_Rate:
  assumes "currentIndex (snd ds) < length (queue (snd ds))"
  shows "snd (step (Rate now r) ds) =
           (if is_fail r
            then (snd ds)\<lparr>currentIndex := currentIndex (snd ds) + 1,
                   requeueTimers := requeueTimers (snd ds) @ [queue (snd ds) ! currentIndex (snd ds)],
                   currentIndexRef := currentIndex (snd ds) + 1\<rparr>
            else (snd ds)\<lparr>currentIndex := currentIndex (snd ds) + 1,
                   currentIndexRef := currentIndex (snd ds) + 1\<rparr>)"
  using handleRate_current [OF assms, of now r "fst ds"]
  by (simp add: syncRef_def)

lemma snd_step_Fire: "snd (step (Fire k) ds) = syncRef (fireRequeue k (snd ds))"
  by (cases ds) simp

lemma queue_syncRef: "queue (syncRef s) = queue s"
  by (simp add: syncRef_def)

text \<open>
  The snapshot \<open>originalQueue\<close> is taken at the start and no event changes it, so
  \<open>handleRestartAll\<close> of the swipe mode, whenever it is called, sets the queue to the
  cards the session started with, empties the missed cards and sets the position to 0.
\<close>

lemma handleRestartAll_resets:
  "queue (handleRestartAll (snd (run es (docs, startSession cards)))) = cards \<and>
   missedCards (handleRestartAll s) = [] \<and>
   currentIndex (handleRestartAll s) = 0"
proof -
  have "originalQueue (snd (run es (docs, startSession cards))) = cards"
    by (simp add: run_originalQueue startSession_def)
  then show ?thesis
    by (simp add: handleRestartAll_def)
qed

text \<open>
  Claim C6, at a session of one card in a rating mode: the card is failed, its copy is
  requeued and then rated Good, so the session is complete. The Restart Session button
  sets the position to 0 but does not reset the queue: the queue of the restarted session
  still holds the requeued copy next to the card, while the snapshot holds the one card
  the session started with. \<open>handleRestartAll\<close>, the restart of the swipe mode, returns
  the snapshot on the same state.
\<close>

theorem restart_keeps_requeued_copies:
  "currentCard (snd (run [Rate 1 AGAIN, Fire 0, Rate 2 GOOD] ([], startSession [plain_card ''b1'' ''q'' ''a'']))) = None \<and>
   currentIndex (restartSession (snd (run [Rate 1 AGAIN, Fire 0, Rate 2 GOOD]
       ([], startSession [plain_card ''b1'' ''q'' ''a''])))) = 0 \<and>
   originalQueue (restartSession (snd (run [Rate 1 AGAIN, Fire 0, Rate 2 GOOD]
       ([], startSession [plain_card ''b1'' ''q'' ''a''])))) = [plain_card ''b1'' ''q'' ''a''] \<and>
   queue (restartSession (snd (run [Rate 1 AGAIN, Fire 0, Rate 2 GOOD]
       ([], startSession [plain_card ''b1'' ''q'' ''a''])))) =
     [plain_card ''b1'' ''q'' ''a'', plain_card ''b1'' ''q'' ''a''] \<and>
   queue (handleRestartAll (snd (run [Rate 1 AGAIN, Fire 0, Rate 2 GOOD]
       ([], startSession [plain_card ''b1'' ''q'' ''a''])))) = [plain_card ''b1'' ''q'' ''a'']"
  by (simp add: startSession_def handleRate_def currentCard_def syncRef_def fireRequeue_def
      requeue_def restartSession_def handleRestartAll_def is_fail_def
      handleUpdateCardProgress_def Let_def)

text \<open>
  Claim C3, at a session of two cards: the first is failed, the second is rated Good, the
  completed session is restarted, and only then the requeue timer of the first rating
  fires. The restart has not cancelled the timer, and its firing inserts a copy of the
  failed card into the queue of the restarted session.
\<close>

theorem stale_requeue_after_restart:
  "currentCard (snd (run [Rate 1 AGAIN, Rate 2 GOOD]
       ([], startSession [plain_card ''b1'' ''q'' ''a'', plain_card ''b2'' ''r'' ''b'']))) = None \<and>
   queue (snd (run [Rate 1 AGAIN, Rate 2 GOOD, RestartSession]
       ([], startSession [plain_card ''b1'' ''q'' ''a'', plain_card ''b2'' ''r'' ''b'']))) =
     [plain_card ''b1'' ''q'' ''a'', plain_card ''b2'' ''r'' ''b''] \<and>
   requeueTimers (snd (run [Rate 1 AGAIN, Rate 2 GOOD, RestartSession]
       ([], startSession [plain_card ''b1'' ''q'' ''a'', plain_card ''b2'' ''r'' ''b'']))) =
     [plain_card ''b1'' ''q'' ''a''] \<and>
   queue (snd (run [Rate 1 AGAIN, Rate 2 GOOD, RestartSession, Fire 0]
       ([], startSession [plain_card ''b1'' ''q'' ''a'', plain_card ''b2'' ''r'' ''b'']))) =
     [plain_card ''b1'' ''q'' ''a'', plain_card ''b1'' ''q'' ''a'', plain_card ''b2'' ''r'' ''b'']"
  by (simp add: startSession_def handleRate_def currentCard_def syncRef_def fireRequeue_def
      requeue_def restartSession_def is_fail_def handleUpdateCardProgress_def Let_def)

text \<open>
  Claim C2, as the code has it. A fail rating at position \<open>p\<close> moves the position to
  \<open>p + 1\<close> at once, leaves the queue as it is and schedules the requeue of the rated
  card. When a timer fires, it reads the position of that moment: within the queue, the
  copy is inserted right after that position, otherwise it is appended. With no other
  rating before the delay fires, the copy lands at index \<open>p + 2\<close>, or at the end of the
  queue, index \<open>p + 1\<close>, when the failed card was the last one. With one more rating in
  between, which moves the position to \<open>p + 2\<close>, the copy lands at index \<open>p + 3\<close>, or at
  the end of the queue.
\<close>

theorem fail_rating_requeue:
  assumes "currentIndex s = p" and "p < length (queue s)" and "is_fail r"
  shows "currentIndex (snd (handleRate now r (docs, s))) = p + 1 \<and>
         queue (snd (handleRate now r (docs, s))) = queue s \<and>
         requeueTimers (snd (handleRate now r (docs, s))) = requeueTimers s @ [queue s ! p] \<and>
         (k < length (requeueTimers t) \<longrightarrow>
            queue (fireRequeue k t) =
              (if currentIndexRef t < length (queue t)
               then take (currentIndexRef t + 1) (queue t) @ (requeueTimers t ! k) #
                    drop (currentIndexRef t + 1) (queue t)
               else queue t @ [requeueTimers t ! k])) \<and>
         queue (snd (run [Rate now r, Fire (length (requeueTimers s))] (docs, s))) =
           take (p + 2) (queue s) @ (queue s ! p) # drop (p + 2) (queue s) \<and>
         (p + 1 < length (queue s) \<longrightarrow>
            queue (snd (run [Rate now r, Fire (length (requeueTimers s))] (docs, s))) ! (p + 2) = queue s ! p \<and>
            currentIndex (snd (run [Rate now r, Rate now' r'] (docs, s))) = p + 2 \<and>
            queue (snd (run [Rate now r, Rate now' r', Fire (length (requeueTimers s))] (docs, s))) =
              take (p + 3) (queue s) @ (queue s ! p) # drop (p + 3) (queue s)) \<and>
         (p + 2 < length (queue s) \<longrightarrow>
            queue (snd (run [Rate now r, Rate now' r', Fire (length (requeueTimers s))] (docs, s))) ! (p + 3) =
              queue s ! p)"
proof -
  let ?q = "queue s" and ?T = "requeueTimers s"
  let ?x = "queue s ! p"
  have nth_ins: "(take n ?q @ ?x # drop n ?q) ! n = ?x" if "n \<le> length ?q" for n
    using that by (simp add: nth_append)
  have hr: "snd (handleRate now r (docs, s)) = s\<lparr>currentIndex := p + 1, requeueTimers := ?T @ [?x]\<rparr>"
    using handleRate_current [of s now r docs] assms by simp
  define s1 where "s1 = snd (step (Rate now r) (docs, s))"
  have s1: "s1 = s\<lparr>currentIndex := p + 1, requeueTimers := ?T @ [?x], currentIndexRef := p + 1\<rparr>"
    unfolding s1_def using snd_step_Rate [of "(docs, s)" now r] assms by simp
  have fire1: "queue (fireRequeue (length ?T) s1) = take (p + 2) ?q @ ?x # drop (p + 2) ?q"
    using fireRequeue_queue [of "length ?T" s1] assms(2) by (simp add: s1)
  have run1: "queue (snd (run [Rate now r, Fire (length ?T)] (docs, s))) =
                take (p + 2) ?q @ ?x # drop (p + 2) ?q"
    using fire1 by (simp add: snd_step_Fire queue_syncRef s1_def)
  have two: "currentIndex (snd (run [Rate now r, Rate now' r'] (docs, s))) = p + 2 \<and>
             queue (snd (run [Rate now r, Rate now' r', Fire (length ?T)] (docs, s))) =
               take (p + 3) ?q @ ?x # drop (p + 3) ?q"
    if lt: "p + 1 < length ?q"
  proof -
    define s2 where "s2 = snd (step (Rate now' r') (step (Rate now r) (docs, s)))"
    have cur: "currentIndex (snd (step (Rate now r) (docs, s))) < length (queue (snd (step (Rate now r) (docs, s))))"
      using lt s1 unfolding s1_def by simp
    have s2: "queue s2 = ?q" "currentIndex s2 = p + 2" "currentIndexRef s2 = p + 2"
             "length ?T < length (requeueTimers s2)" "requeueTimers s2 ! length ?T = ?x"
      unfolding s2_def snd_step_Rate [OF cur] using s1 unfolding s1_def
      by (simp_all add: nth_append)
    have "queue (fireRequeue (length ?T) s2) = take (p + 3) ?q @ ?x # drop (p + 3) ?q"
      using fireRequeue_queue [OF s2(4)] lt by (simp add: s2 numeral_3_eq_3)
    then show ?thesis
      using s2(2) by (simp add: snd_step_Fire queue_syncRef s2_def)
  qed
  show ?thesis
    using hr run1 two nth_ins [of "p + 2"] nth_ins [of "p + 3"] fireRequeue_queue [of k t]
    by simp
qed

theorem fail_rating_requeue_witness:
  "currentIndex (startSession [plain_card ''b1'' ''q'' ''a'', plain_card ''b2'' ''r'' ''b'',
       plain_card ''b3'' ''s'' ''c'', plain_card ''b4'' ''t'' ''d'']) = 0 \<and>
   is_fail AGAIN \<and>
   queue (fireRequeue 0 (snd (run [Rate 1 AGAIN] ([], startSession [plain_card ''b1'' ''q'' ''a'',
       plain_card ''b2'' ''r'' ''b'', plain_card ''b3'' ''s'' ''c'', plain_card ''b4'' ''t'' ''d''])))) =
     [plain_card ''b1'' ''q'' ''a'', plain_card ''b2'' ''r'' ''b'', plain_card ''b1'' ''q'' ''a'',
      plain_card ''b3'' ''s'' ''c'', plain_card ''b4'' ''t'' ''d''] \<and>
   queue (snd (run [Rate 1 AGAIN, Fire 0] ([], startSession [plain_card ''b1'' ''q'' ''a'',
       plain_card ''b2'' ''r'' ''b'', plain_card ''b3'' ''s'' ''c'', plain_card ''b4'' ''t'' ''d'']))) =
     [plain_card ''b1'' ''q'' ''a'', plain_card ''b2'' ''r'' ''b'', plain_card ''b1'' ''q'' ''a'',
      plain_card ''b3'' ''s'' ''c'', plain_card ''b4'' ''t'' ''d''] \<and>
   queue (snd (run [Rate 1 AGAIN, Rate 2 TWO_SEC, Fire 0] ([], startSession [plain_card ''b1'' ''q'' ''a'',
       plain_card ''b2'' ''r'' ''b'', plain_card ''b3'' ''s'' ''c'', plain_card ''b4'' ''t'' ''d'']))) =
     [plain_card ''b1'' ''q'' ''a'', plain_card ''b2'' ''r'' ''b'', plain_card ''b3'' ''s'' ''c'',
      plain_card ''b1'' ''q'' ''a'', plain_card ''b4'' ''t'' ''d'']"
proof -
  let ?s = "startSession [plain_card ''b1'' ''q'' ''a'', plain_card ''b2'' ''r'' ''b'',
       plain_card ''b3'' ''s'' ''c'', plain_card ''b4'' ''t'' ''d'']"
  let ?t = "snd (run [Rate 1 AGAIN] ([], ?s))"
  have h1: "currentIndex ?s = 0" by (simp add: startSession_def)
  have h2: "0 < length (queue ?s)" by (simp add: startSession_def)
  have h3: "is_fail AGAIN" by (simp add: is_fail_def)
  have q: "queue ?s = [plain_card ''b1'' ''q'' ''a'', plain_card ''b2'' ''r'' ''b'',
       plain_card ''b3'' ''s'' ''c'', plain_card ''b4'' ''t'' ''d'']" "requeueTimers ?s = []"
    by (simp_all add: startSession_def)
  have t: "requeueTimers ?t = [plain_card ''b1'' ''q'' ''a'']" "currentIndexRef ?t = 1"
    "queue ?t = [plain_card ''b1'' ''q'' ''a'', plain_card ''b2'' ''r'' ''b'',
       plain_card ''b3'' ''s'' ''c'', plain_card ''b4'' ''t'' ''d'']"
    by (simp_all add: startSession_def handleRate_def currentCard_def syncRef_def is_fail_def)
  from fail_rating_requeue [OF h1 h2 h3, of 1 "[]" 0 ?t 2 TWO_SEC] h1 h3
  show ?thesis unfolding q t by simp
qed

text \<open>
  Claim C2 as stated has the failed card reappear at index \<open>p + 1\<close> when no other
  rating comes before the delay fires. In a session of three cards, the first one failed
  at position 0: index 1 still holds the second card and the copy is at index 2.
\<close>

theorem requeue_index_counterexample:
  "currentIndex (snd (run [Rate 1 AGAIN]
       ([], startSession [plain_card ''b1'' ''q'' ''a'', plain_card ''b2'' ''r'' ''b'', plain_card ''b3'' ''s'' ''c'']))) = 0 + 1 \<and>
   queue (snd (run [Rate 1 AGAIN, Fire 0]
       ([], startSession [plain_card ''b1'' ''q'' ''a'', plain_card ''b2'' ''r'' ''b'', plain_card ''b3'' ''s'' ''c'']))) ! (0 + 1)
     \<noteq> plain_card ''b1'' ''q'' ''a'' \<and>
   queue (snd (run [Rate 1 AGAIN, Fire 0]
       ([], startSession [plain_card ''b1'' ''q'' ''a'', plain_card ''b2'' ''r'' ''b'', plain_card ''b3'' ''s'' ''c'']))) =
     [plain_card ''b1'' ''q'' ''a'', plain_card ''b2'' ''r'' ''b'', plain_card ''b1'' ''q'' ''a'', plain_card ''b3'' ''s'' ''c'']"
  by (simp add: startSession_def handleRate_def currentCard_def syncRef_def fireRequeue_def
      requeue_def is_fail_def handleUpdateCardProgress_def Let_def plain_card_def)



end
